theory Spec2Isabelle
  imports Main "HOL-Library.AList"
begin

section \<open>MEL versioning and merge logic of the chat route\<close>

text \<open>
  A shallow embedding of \<^verbatim>\<open>src/app/api/chat/route.backup.ts\<close> and
  \<^verbatim>\<open>src/app/api/sessions/route.ts\<close>.

  Every optional field of a TypeScript interface is an \<open>option\<close>: \<open>None\<close> is
  \<^verbatim>\<open>undefined\<close>. Strict equality \<^verbatim>\<open>===\<close> on such a field is equality of the
  \<open>option\<close> values, so \<^verbatim>\<open>undefined === undefined\<close> holds, as in JavaScript.
  The truthiness test \<^verbatim>\<open>x || y\<close> on a string takes \<open>y\<close> when \<open>x\<close> is
  \<^verbatim>\<open>undefined\<close> or the empty string.
\<close>

subsection \<open>Data model\<close>

text \<open>
  \<^verbatim>\<open>Number?: string | number\<close>. A JSON number used as a sequence number is an integer
  here; \<^verbatim>\<open>"3" === 3\<close> is false, and so are the two constructors different.
\<close>

datatype SeqNumber = NumString string | NumNumber int

text \<open>
  \<^verbatim>\<open>interface Inject\<close>. The fields \<open>id\<close> and \<open>melId\<close> carry a suffix, since
  \<open>id\<close> is a constant of HOL and \<open>melId\<close> is a field of \<open>MelData\<close> too. The index
  signature \<^verbatim>\<open>[key: string]: unknown\<close> is the association list \<open>extra\<close> (the
  name of the property and the JSON text of its value).
\<close>

record Inject =
  id_inj :: "string option"
  melId_inj :: "string option"
  Number :: "SeqNumber option"
  Serial :: "string option"
  Time :: "string option"
  From :: "string option"
  Faction :: "string option"
  To :: "string option"
  Team :: "string option"
  Method :: "string option"
  On :: "string option"
  Subject :: "string option"
  Message :: "string option"
  originalIndex :: "nat option"
  lastModified :: "string option"
  extra :: "(string \<times> string) list"

text \<open>
  \<^verbatim>\<open>interface Event\<close>. The name is \<^verbatim>\<open>inject.Serial\<close>, which may be
  \<^verbatim>\<open>undefined\<close>.
\<close>

record Event =
  id_ev :: string
  name :: "string option"
  injectCount :: nat

text \<open>\<^verbatim>\<open>interface MelData\<close>.\<close>

record MelData =
  melId :: string
  version :: int
  timestamp :: string
  injects :: "Inject list"
  totalInjects :: nat
  events :: "Event list"

subsection \<open>The runtime: random identifiers and the clock\<close>

text \<open>
  \<^verbatim>\<open>randomUUID()\<close> and \<^verbatim>\<open>new Date().toISOString()\<close> read the outside world.
  The world is the sequence of values each of them is going to return and the number of
  calls made so far; a call returns the next value and advances the position.
\<close>

record world =
  uuidSeq :: "nat \<Rightarrow> string"
  uuidPos :: nat
  clockSeq :: "nat \<Rightarrow> string"
  clockPos :: nat

definition randomUUID :: "world \<Rightarrow> string \<times> world" where
  "randomUUID w = (uuidSeq w (uuidPos w), w\<lparr>uuidPos := Suc (uuidPos w)\<rparr>)"

definition nowISO :: "world \<Rightarrow> string \<times> world" where
  "nowISO w = (clockSeq w (clockPos w), w\<lparr>clockPos := Suc (clockPos w)\<rparr>)"

text \<open>\<^verbatim>\<open>x || randomUUID()\<close>: the right operand is evaluated only when \<open>x\<close> is falsy.\<close>

definition orRandomUUID :: "string option \<Rightarrow> world \<Rightarrow> string \<times> world" where
  "orRandomUUID x w =
     (case x of
        None \<Rightarrow> randomUUID w
      | Some s \<Rightarrow> if s = [] then randomUUID w else (s, w))"

subsection \<open>extractEventsFromInjects\<close>

text \<open>
  The \<^verbatim>\<open>Map\<close> of the source keeps its keys in insertion order, and \<^verbatim>\<open>set\<close> on
  a key it has keeps the key's place: an association list with \<open>AList.update\<close>.
  \<^verbatim>\<open>eventMap.get(eventName).injectCount++\<close> mutates the entry where it stands.
\<close>

type_synonym eventMap = "(string option \<times> Event) list"

definition eventStep :: "eventMap \<times> world \<Rightarrow> Inject \<Rightarrow> eventMap \<times> world" where
  "eventStep mw inject =
     (let eventMap = fst mw; w = snd mw;
          eventName = Serial inject;
          (eventMap1, w1) =
            (if map_of eventMap eventName = None
             then (let (u, w') = randomUUID w
                   in (AList.update eventName
                         \<lparr>id_ev = u, name = eventName, injectCount = 0\<rparr> eventMap, w'))
             else (eventMap, w))
      in (AList.map_entry eventName (\<lambda>e. e\<lparr>injectCount := injectCount e + 1\<rparr>) eventMap1, w1))"

definition extractEventsFromInjects :: "Inject list \<Rightarrow> world \<Rightarrow> Event list \<times> world" where
  "extractEventsFromInjects injs w =
     (let (eventMap, w') = foldl eventStep ([], w) injs
      in (map snd eventMap, w'))"

subsection \<open>createMelVersion\<close>

text \<open>
  The \<^verbatim>\<open>map\<close> callback of \<^verbatim>\<open>createMelVersion\<close>, with the index it receives:
  the spread \<^verbatim>\<open>...inject\<close> is a record update.
\<close>

fun assignIds :: "string \<Rightarrow> string \<Rightarrow> nat \<Rightarrow> Inject list \<Rightarrow> world \<Rightarrow> Inject list \<times> world" where
  "assignIds currentMelId ts index [] w = ([], w)"
| "assignIds currentMelId ts index (inject # rest) w =
     (let (newId, w1) = orRandomUUID (id_inj inject) w;
          inject' = inject\<lparr>id_inj := Some newId, melId_inj := Some currentMelId,
                            originalIndex := Some index, lastModified := Some ts\<rparr>;
          (rest', w2) = assignIds currentMelId ts (Suc index) rest w1
      in (inject' # rest', w2))"

definition createMelVersion :: "Inject list \<Rightarrow> string option \<Rightarrow> world \<Rightarrow> MelData \<times> world" where
  "createMelVersion injs melIdOpt w =
     (let (currentMelId, w1) = orRandomUUID melIdOpt w;
          (ts, w2) = nowISO w1;
          (injectsWithIds, w3) = assignIds currentMelId ts 0 injs w2;
          (evs, w4) = extractEventsFromInjects injectsWithIds w3
      in (\<lparr>melId = currentMelId, version = 1, timestamp = ts, injects = injectsWithIds,
           totalInjects = length injectsWithIds, events = evs\<rparr>, w4))"

subsection \<open>updateMelVersion\<close>

text \<open>
  \<^verbatim>\<open>version: number\<close> is an IEEE 754 double. A version is a whole number here (every
  version that the program makes from 1 is one), and an \<open>int\<close> stands for the double of
  that value. \<^verbatim>\<open>currentMel.version + 1\<close> is the sum rounded to the nearest double, the
  even one on a tie. From \<open>- 2 ^ 53\<close> to \<open>2 ^ 53 - 1\<close> the sum is exact. Up to
  \<open>2 ^ 54\<close> in magnitude the doubles are the even numbers, the sum lies half way between
  two of them, and the one with the even significand (half of it is even) is taken.
  Beyond, the doubles are 4 or more apart and the sum rounds back to the number itself.
\<close>

definition numberPlusOne :: "int \<Rightarrow> int" where
  "numberPlusOne v =
     (if - (2 ^ 53) \<le> v \<and> v < 2 ^ 53 then v + 1
      else if \<bar>v\<bar> \<le> 2 ^ 54 then (if even (v div 2) then v else v + 2)
      else v)"

definition updateMelVersion :: "MelData \<Rightarrow> Inject list \<Rightarrow> world \<Rightarrow> MelData \<times> world" where
  "updateMelVersion currentMel updatedInjects w =
     (let (ts, w1) = nowISO w;
          (evs, w2) = extractEventsFromInjects updatedInjects w1
      in (currentMel\<lparr>version := numberPlusOne (version currentMel), timestamp := ts,
            injects := map (\<lambda>inject. inject\<lparr>lastModified := Some ts\<rparr>) updatedInjects,
            totalInjects := length updatedInjects, events := evs\<rparr>, w2))"

subsection \<open>mergeMelUpdates\<close>

text \<open>\<^verbatim>\<open>Array.prototype.findIndex\<close>; the result \<^verbatim>\<open>-1\<close> is \<open>None\<close>.\<close>

fun findIndex :: "('a \<Rightarrow> bool) \<Rightarrow> 'a list \<Rightarrow> nat option" where
  "findIndex P [] = None"
| "findIndex P (x # xs) = (if P x then Some 0 else map_option Suc (findIndex P xs))"

text \<open>
  The body of \<^verbatim>\<open>updatedInjects.forEach\<close> in the partial update. The list
  \<^verbatim>\<open>mergedInjects\<close> is searched, not \<^verbatim>\<open>existingInjectsMap\<close>, which the source
  fills and never reads.
\<close>

definition mergeStep :: "MelData \<Rightarrow> Inject list \<times> world \<Rightarrow> Inject \<Rightarrow> Inject list \<times> world" where
  "mergeStep currentMel mw updatedInject =
     (let mergedInjects = fst mw; w = snd mw in
      case findIndex (\<lambda>existing. id_inj existing = id_inj updatedInject \<or>
                                 Number existing = Number updatedInject) mergedInjects of
        Some existingIndex \<Rightarrow>
          (let (now, w1) = nowISO w
           in (mergedInjects[existingIndex :=
                 updatedInject\<lparr>id_inj := id_inj (mergedInjects ! existingIndex),
                                melId_inj := Some (melId currentMel),
                                lastModified := Some now\<rparr>], w1))
      | None \<Rightarrow>
          (let (newId, w1) = orRandomUUID (id_inj updatedInject) w;
               (now, w2) = nowISO w1
           in (mergedInjects @
                 [updatedInject\<lparr>id_inj := Some newId, melId_inj := Some (melId currentMel),
                                 lastModified := Some now\<rparr>], w2)))"

text \<open>
  \<^verbatim>\<open>!currentMel || !currentMel.injects\<close>: \<open>None\<close> is \<^verbatim>\<open>null\<close>. The field
  \<^verbatim>\<open>injects\<close> of a \<open>MelData\<close> is an array, and every array is truthy, the empty one
  too, so the test fails for every document.
\<close>

definition mergeMelUpdates :: "MelData option \<Rightarrow> Inject list \<Rightarrow> world \<Rightarrow> MelData \<times> world" where
  "mergeMelUpdates currentMelOpt updatedInjects w =
     (case currentMelOpt of
        None \<Rightarrow> createMelVersion updatedInjects None w
      | Some currentMel \<Rightarrow>
          (let isPartialUpdate = length updatedInjects < length (injects currentMel) in
           if isPartialUpdate
           then (let (mergedInjects, w1) =
                       foldl (mergeStep currentMel) (injects currentMel, w) updatedInjects
                 in updateMelVersion currentMel mergedInjects w1)
           else updateMelVersion currentMel updatedInjects w))"

subsection \<open>Sessions of the chat route\<close>

record Message =
  role :: string
  content :: string
  id_msg :: "string option"

text \<open>
  An entry of \<^verbatim>\<open>melHistory\<close> is \<^verbatim>\<open>MelData & { createdAt: string; source: string }\<close>:
  the record \<open>MelData\<close> extended by two fields. \<open>historyEntry\<close> is the object literal
  \<^verbatim>\<open>{ ...melData, createdAt, source }\<close>.
\<close>

record MelHistoryEntry = MelData +
  createdAt_hist :: string
  source :: string

definition historyEntry :: "MelData \<Rightarrow> string \<Rightarrow> string \<Rightarrow> MelHistoryEntry" where
  "historyEntry melData created src =
     \<lparr>melId = melId melData, version = version melData, timestamp = timestamp melData,
      injects = injects melData, totalInjects = totalInjects melData,
      events = events melData, createdAt_hist = created, source = src\<rparr>"

record Session =
  messages :: "Message list"
  lastActivity :: string
  createdAt :: string
  currentMel :: "MelData option"
  melHistory :: "MelHistoryEntry list option"

text \<open>
  \<^verbatim>\<open>const sessions = new Map<string, Session>()\<close> of the chat route: keys in
  insertion order. A session object is held by reference, so an assignment to one of
  its fields is an update of the entry in the map.
\<close>

type_synonym chatStore = "(string \<times> Session) list"

text \<open>
  A handler answers \<^verbatim>\<open>NextResponse.json(payload)\<close> or
  \<^verbatim>\<open>NextResponse.json({ error }, { status })\<close>.
\<close>

datatype 'a response = JsonOk 'a | JsonError nat string

definition truthy :: "string option \<Rightarrow> bool" where
  "truthy x = (case x of None \<Rightarrow> False | Some s \<Rightarrow> s \<noteq> [])"

subsection \<open>PUT of the chat route: user edits\<close>

text \<open>
  The body of the request after \<^verbatim>\<open>await request.json()\<close>. \<open>injects_put\<close> is \<open>None\<close>
  when the property is absent or is not an array.
\<close>

record PutRequest =
  sessionId_put :: "string option"
  melId_put :: "string option"
  injects_put :: "Inject list option"
  action_put :: "string option"

text \<open>
  The request is \<open>None\<close> when \<^verbatim>\<open>request.json()\<close> throws: the \<^verbatim>\<open>catch\<close> answers
  500. The state is the map of the sessions and the world. The payload of the answer to
  an accepted edit is the new document; the flag \<^verbatim>\<open>success\<close> and the message text,
  which are made of it, are left out.
\<close>

definition PUT :: "PutRequest option \<Rightarrow> chatStore \<times> world \<Rightarrow> MelData response \<times> (chatStore \<times> world)" where
  "PUT body st =
     (let sessions = fst st; w = snd st in
      case body of
        None \<Rightarrow> (JsonError 500 ''Failed to update MEL'', st)
      | Some req \<Rightarrow>
          if \<not> truthy (sessionId_put req)
          then (JsonError 400 ''Session ID is required'', st)
          else
            (let sessionId = the (sessionId_put req) in
             case map_of sessions sessionId of
               None \<Rightarrow> (JsonError 404 ''Session not found'', st)
             | Some session \<Rightarrow>
                 (case (if action_put req = Some ''updateInjects'' then injects_put req else None) of
                    Some injs \<Rightarrow>
                      (case currentMel session of
                         None \<Rightarrow> (JsonError 404 ''MEL not found or ID mismatch'', st)
                       | Some cm \<Rightarrow>
                           if Some (melId cm) \<noteq> melId_put req
                           then (JsonError 404 ''MEL not found or ID mismatch'', st)
                           else
                             (let (updatedMel, w1) = updateMelVersion cm injs w;
                                  session1 = session\<lparr>currentMel := Some updatedMel\<rparr>;
                                  history = (case melHistory session1 of
                                               None \<Rightarrow> [] | Some h \<Rightarrow> h);
                                  (now, w2) = nowISO w1;
                                  session2 = session1\<lparr>melHistory :=
                                    Some (history @ [historyEntry updatedMel now ''user_edit''])\<rparr>
                              in (JsonOk updatedMel,
                                  (AList.update sessionId session2 sessions, w2))))
                  | None \<Rightarrow> (JsonError 400 ''Invalid action or missing data'', st))))"

subsection \<open>GET of the chat route\<close>

datatype chatGetPayload = SessionKeys "string list" | SessionFound Session

definition GET :: "string option \<Rightarrow> chatStore \<Rightarrow> chatGetPayload response" where
  "GET sessionId sessions =
     (if \<not> truthy sessionId then JsonOk (SessionKeys (map fst sessions))
      else case map_of sessions (the sessionId) of
             None \<Rightarrow> JsonError 404 ''Session not found''
           | Some session \<Rightarrow> JsonOk (SessionFound session))"

subsection \<open>POST of the chat route: a chat turn\<close>

record ChatRequest =
  messages_req :: "Message list"
  apiKey :: "string option"
  systemPrompt :: "string option"
  sessionId_req :: "string option"
  currentMelData :: "MelData option"

text \<open>
  The chat completion API is outside the program. What it answers is an input of the
  model: \<^verbatim>\<open>fetch\<close> or \<^verbatim>\<open>response.json()\<close> throws, or the response is not
  \<^verbatim>\<open>ok\<close>, with its status and body, or it is, with the three values that
  \<^verbatim>\<open>processResponsesApiOutput\<close> takes from it (\<^verbatim>\<open>content\<close>,
  \<^verbatim>\<open>extractedJson\<close>, \<^verbatim>\<open>action\<close>).
\<close>

datatype upstream =
    UpstreamThrows
  | UpstreamFailure nat string
  | UpstreamReply string "Inject list option" string

record ChatReply =
  content_reply :: string
  sessionId_reply :: string
  messageCount :: nat
  melData :: "MelData option"
  hasJson :: bool
  action_reply :: string

text \<open>
  Lines 403 to 419 of the source: which of the three functions makes the new document.
  The action is the mode (\<^verbatim>\<open>'merge'\<close>, or anything else for a replacement).
\<close>

text \<open>The decimal digits of a number, as a template literal writes \<^verbatim>\<open>response.status\<close>.\<close>

function showNat :: "nat \<Rightarrow> string" where
  "showNat n =
     (if n < 10 then [''0123456789'' ! n]
      else showNat (n div 10) @ [''0123456789'' ! (n mod 10)])"
  by pat_completeness auto
termination
  by (relation "measure (\<lambda>n. n)") auto

definition POST_melData :: "MelData option \<Rightarrow> Inject list \<Rightarrow> string \<Rightarrow> world \<Rightarrow> MelData \<times> world" where
  "POST_melData existingMel extractedJson action w =
     (case existingMel of
        None \<Rightarrow> createMelVersion extractedJson None w
      | Some em \<Rightarrow>
          if length (injects em) > 0
          then (if action = ''merge''
                then mergeMelUpdates (Some em) extractedJson w
                else updateMelVersion em extractedJson w)
          else createMelVersion extractedJson None w)"

text \<open>
  \<open>envKey\<close> is \<^verbatim>\<open>process.env.OPENAI_API_KEY\<close>. The messages and the context that
  the handler sends to the API are not part of the model, since the answer of the API is
  an input; the constant \<^verbatim>\<open>apiType\<close> and the \<^verbatim>\<open>toolCalls\<close> of the answer, which
  the handler passes on as they are, are left out of the reply. The identifier of a new session is
  \<^verbatim>\<open>session_\<close> followed by the clock's reading. The request is \<open>None\<close>
  when \<^verbatim>\<open>request.json()\<close> throws; the \<^verbatim>\<open>catch\<close> answers 500, and what the
  handler did to the session before the exception stays done. Lines 322 to 377 of the
  source file are what is left of the body of another request (a schema and two tool
  declarations): they are no statement of the handler and have no counterpart here.
\<close>

definition POST :: "ChatRequest option \<Rightarrow> string option \<Rightarrow> upstream \<Rightarrow> chatStore \<times> world
    \<Rightarrow> ChatReply response \<times> (chatStore \<times> world)" where
  "POST body envKey up st =
     (let sessions = fst st; w = snd st in
      case body of
        None \<Rightarrow> (JsonError 500 ''Internal server error'', st)
      | Some req \<Rightarrow>
      if \<not> truthy (apiKey req) \<and> \<not> truthy envKey
      then (JsonError 400 ''API key is required'', st)
      else
        (let (currentSessionId, w1) =
               (if truthy (sessionId_req req) then (the (sessionId_req req), w)
                else (let (t, w') = nowISO w in (''session_'' @ t, w')));
             (session, w2) =
               (case map_of sessions currentSessionId of
                  Some s \<Rightarrow> (s, w1)
                | None \<Rightarrow>
                    (let (la, wa) = nowISO w1; (ca, wb) = nowISO wa
                     in (\<lparr>messages = [], lastActivity = la, createdAt = ca,
                          currentMel = None, melHistory = None\<rparr>, wb)));
             session1 = (case currentMelData req of
                           Some m \<Rightarrow> session\<lparr>currentMel := Some m\<rparr>
                         | None \<Rightarrow> session);
             sessions1 = AList.update currentSessionId session1 sessions;
             existingMel = (case currentMelData req of
                              Some m \<Rightarrow> Some m
                            | None \<Rightarrow> currentMel session1)
         in case up of
              UpstreamThrows \<Rightarrow> (JsonError 500 ''Internal server error'', (sessions1, w2))
            | UpstreamFailure status errorData \<Rightarrow>
                (JsonError status
                   (''OpenAI Responses API Error: '' @ showNat status @ '' - '' @ errorData),
                 (sessions1, w2))
            | UpstreamReply replyText extractedJson action \<Rightarrow>
                (let finalContent =
                       (if replyText = [] then ''Exercise data has been processed using Responses API.''
                        else replyText);
                     (melDataOpt, session2, w3) =
                       (case extractedJson of
                          None \<Rightarrow> (None, session1, w2)
                        | Some injs \<Rightarrow>
                            (let (md, wa) = POST_melData existingMel injs action w2;
                                 history = (case melHistory session1 of
                                              None \<Rightarrow> [] | Some h \<Rightarrow> h);
                                 (now, wb) = nowISO wa
                             in (Some md,
                                 session1\<lparr>currentMel := Some md,
                                   melHistory := Some (history @
                                     [historyEntry md now
                                        (if action = ''merge'' then ''partial_update_responses''
                                         else ''full_creation_responses'')])\<rparr>,
                                 wb)));
                     (la, w4) = nowISO w3;
                     session3 = session2\<lparr>messages := messages_req req @
                                   [\<lparr>role = ''assistant'', content = finalContent, id_msg = None\<rparr>],
                                 lastActivity := la\<rparr>
                 in (JsonOk \<lparr>content_reply = finalContent, sessionId_reply = currentSessionId,
                             messageCount = length (messages session3), melData = melDataOpt,
                             hasJson = (extractedJson \<noteq> None), action_reply = action\<rparr>,
                     (AList.update currentSessionId session3 sessions1, w4)))))"

subsection \<open>The sessions route\<close>

text \<open>
  \<^verbatim>\<open>interface SessionData\<close> of \<^verbatim>\<open>src/app/api/sessions/route.ts\<close>. The handler
  stores \<^verbatim>\<open>exercise\<close> and \<^verbatim>\<open>messages\<close> as the request has them, so both may be
  \<^verbatim>\<open>undefined\<close>.
\<close>

record SessionData =
  id_sd :: string
  exercise :: "string option"
  messages_sd :: "Message list option"
  lastActivity_sd :: string
  createdAt_sd :: string

type_synonym apiStore = "(string \<times> SessionData) list"

record SessionSummary =
  id_sum :: string
  lastActivity_sum :: string
  messageCount_sum :: nat

datatype apiGetPayload = SessionList "SessionSummary list" | SessionDataFound SessionData

text \<open>\<^verbatim>\<open>x || new Date().toISOString()\<close>: the clock is read only when \<open>x\<close> is falsy.\<close>

definition orNow :: "string option \<Rightarrow> world \<Rightarrow> string \<times> world" where
  "orNow x w = (if truthy x then (the x, w) else nowISO w)"

fun sessionList :: "apiStore \<Rightarrow> string list \<Rightarrow> world \<Rightarrow> SessionSummary list \<times> world" where
  "sessionList sessions [] w = ([], w)"
| "sessionList sessions (k # ks) w =
     (let (la, w1) = orNow (map_option lastActivity_sd (map_of sessions k)) w;
          n = (case map_of sessions k of
                 None \<Rightarrow> 0
               | Some s \<Rightarrow> (case messages_sd s of None \<Rightarrow> 0 | Some ms \<Rightarrow> length ms));
          (rest, w2) = sessionList sessions ks w1
      in (\<lparr>id_sum = k, lastActivity_sum = la, messageCount_sum = n\<rparr> # rest, w2))"

definition sessions_GET :: "string option \<Rightarrow> apiStore \<times> world
    \<Rightarrow> apiGetPayload response \<times> (apiStore \<times> world)" where
  "sessions_GET sessionId st =
     (let sessions = fst st; w = snd st in
      if \<not> truthy sessionId
      then (let (l, w1) = sessionList sessions (map fst sessions) w
            in (JsonOk (SessionList l), (sessions, w1)))
      else case map_of sessions (the sessionId) of
             None \<Rightarrow> (JsonError 404 ''Session not found'', st)
           | Some session \<Rightarrow> (JsonOk (SessionDataFound session), st))"

record SaveRequest =
  sessionId_save :: "string option"
  exercise_save :: "string option"
  messages_save :: "Message list option"

definition sessions_POST :: "SaveRequest option \<Rightarrow> apiStore \<times> world
    \<Rightarrow> SessionData response \<times> (apiStore \<times> world)" where
  "sessions_POST body st =
     (let sessions = fst st; w = snd st in
      case body of
        None \<Rightarrow> (JsonError 500 ''Failed to save session'', st)
      | Some req \<Rightarrow>
      if \<not> truthy (sessionId_save req)
      then (JsonError 400 ''Session ID required'', st)
      else
        (let sessionId = the (sessionId_save req);
             (la, w1) = nowISO w;
             (ca, w2) = orNow (map_option createdAt_sd (map_of sessions sessionId)) w1;
             session = \<lparr>id_sd = sessionId, exercise = exercise_save req,
                        messages_sd = messages_save req, lastActivity_sd = la,
                        createdAt_sd = ca\<rparr>
         in (JsonOk session, (AList.update sessionId session sessions, w2))))"

definition sessions_DELETE :: "string option \<Rightarrow> apiStore \<times> world
    \<Rightarrow> unit response \<times> (apiStore \<times> world)" where
  "sessions_DELETE sessionId st =
     (if \<not> truthy sessionId
      then (JsonError 400 ''Session ID required'', st)
      else (JsonOk (), (AList.delete (the sessionId) (fst st), snd st)))"

subsection \<open>The server: two modules, two maps\<close>

text \<open>
  Each route module declares its own \<^verbatim>\<open>const sessions = new Map()\<close>. The state of
  the server process holds both, beside the world, and a request to a route runs that
  route's handler on that module's map.
\<close>

record server =
  chatSessions :: chatStore
  apiSessions :: apiStore
  runtime :: world

definition onChat :: "(chatStore \<times> world \<Rightarrow> 'r \<times> (chatStore \<times> world)) \<Rightarrow> server \<Rightarrow> 'r \<times> server" where
  "onChat handler srv =
     (let (r, st) = handler (chatSessions srv, runtime srv)
      in (r, srv\<lparr>chatSessions := fst st, runtime := snd st\<rparr>))"

definition onSessions :: "(apiStore \<times> world \<Rightarrow> 'r \<times> (apiStore \<times> world)) \<Rightarrow> server \<Rightarrow> 'r \<times> server" where
  "onSessions handler srv =
     (let (r, st) = handler (apiSessions srv, runtime srv)
      in (r, srv\<lparr>apiSessions := fst st, runtime := snd st\<rparr>))"

text \<open>The requests the server receives, and the step it makes on each.\<close>

datatype request =
    ChatPOST "ChatRequest option" "string option" upstream
  | ChatGET "string option"
  | ChatPUT "PutRequest option"
  | SessionsGET "string option"
  | SessionsPOST "SaveRequest option"
  | SessionsDELETE "string option"

datatype reply =
    ChatPOSTReply "ChatReply response"
  | ChatGETReply "chatGetPayload response"
  | ChatPUTReply "MelData response"
  | SessionsGETReply "apiGetPayload response"
  | SessionsPOSTReply "SessionData response"
  | SessionsDELETEReply "unit response"

fun isChatRequest :: "request \<Rightarrow> bool" where
  "isChatRequest (ChatPOST _ _ _) = True"
| "isChatRequest (ChatGET _) = True"
| "isChatRequest (ChatPUT _) = True"
| "isChatRequest _ = False"

fun handle :: "request \<Rightarrow> server \<Rightarrow> reply \<times> server" where
  "handle (ChatPOST req envKey up) srv =
     (let (r, srv') = onChat (POST req envKey up) srv in (ChatPOSTReply r, srv'))"
| "handle (ChatGET sessionId) srv = (ChatGETReply (GET sessionId (chatSessions srv)), srv)"
| "handle (ChatPUT body) srv =
     (let (r, srv') = onChat (PUT body) srv in (ChatPUTReply r, srv'))"
| "handle (SessionsGET sessionId) srv =
     (let (r, srv') = onSessions (sessions_GET sessionId) srv in (SessionsGETReply r, srv'))"
| "handle (SessionsPOST req) srv =
     (let (r, srv') = onSessions (sessions_POST req) srv in (SessionsPOSTReply r, srv'))"
| "handle (SessionsDELETE sessionId) srv =
     (let (r, srv') = onSessions (sessions_DELETE sessionId) srv in (SessionsDELETEReply r, srv'))"

subsection \<open>Notions of the specification\<close>

text \<open>
  The distinct values of a list in the order of their first occurrence: \<open>remdups\<close>
  keeps the last occurrence of each value, so the list is reversed before and after.
\<close>

definition firstSeen :: "'a list \<Rightarrow> 'a list" where
  "firstSeen xs = rev (remdups (rev xs))"

text \<open>
  What the aggregation map holds, without the random identifiers: for each key, the
  name and the count of its entry. \<open>keyCounts\<close> is what the specification asks for.
\<close>

definition eventView :: "eventMap \<Rightarrow> (string option \<times> string option \<times> nat) list" where
  "eventView m = map (\<lambda>p. (fst p, name (snd p), injectCount (snd p))) m"

definition keyCounts :: "string option list \<Rightarrow> (string option \<times> string option \<times> nat) list" where
  "keyCounts ks = map (\<lambda>k. (k, k, count_list ks k)) (firstSeen ks)"

subsection \<open>Concrete inputs\<close>

text \<open>
  A world whose identifiers and clock readings are all different, five injects numbered
  1 to 5, the document that \<^verbatim>\<open>createMelVersion\<close> builds from them in that world
  (\<open>demoDoc\<close>, see \<open>demoDoc_built\<close>), the document it builds from no injects, and an
  incoming inject with number 3 and a new message body.
\<close>

definition demoUuid :: "nat \<Rightarrow> string" where
  "demoUuid n = ''uuid-'' @ replicate n (CHR ''i'')"

definition demoClock :: "nat \<Rightarrow> string" where
  "demoClock n = ''tick-'' @ replicate n (CHR ''i'')"

definition demoWorldAt :: "nat \<Rightarrow> nat \<Rightarrow> world" where
  "demoWorldAt u c = \<lparr>uuidSeq = demoUuid, uuidPos = u, clockSeq = demoClock, clockPos = c\<rparr>"

definition demoInject :: "int \<Rightarrow> string \<Rightarrow> string \<Rightarrow> Inject" where
  "demoInject n serial msg =
     \<lparr>id_inj = None, melId_inj = None, Number = Some (NumNumber n), Serial = Some serial,
      Time = Some ''T+0'', From = Some ''HQ'', Faction = Some ''Blue'', To = Some ''All'',
      Team = Some ''Ops'', Method = Some ''Email'', On = Some ''Day 1'',
      Subject = Some ''Update'', Message = Some msg, originalIndex = None,
      lastModified = None, extra = []\<rparr>"

definition demoFive :: "Inject list" where
  "demoFive = map (\<lambda>n. demoInject n ''Phase 1'' ''original'') [1, 2, 3, 4, 5]"

definition demoStored :: "int \<Rightarrow> string \<Rightarrow> nat \<Rightarrow> Inject" where
  "demoStored n uuid index =
     (demoInject n ''Phase 1'' ''original'')
       \<lparr>id_inj := Some uuid, melId_inj := Some ''uuid-'', originalIndex := Some index,
        lastModified := Some ''tick-''\<rparr>"

definition demoDoc :: MelData where
  "demoDoc =
     \<lparr>melId = ''uuid-'', version = 1, timestamp = ''tick-'',
      injects = [demoStored 1 ''uuid-i'' 0, demoStored 2 ''uuid-ii'' 1,
                 demoStored 3 ''uuid-iii'' 2, demoStored 4 ''uuid-iiii'' 3,
                 demoStored 5 ''uuid-iiiii'' 4],
      totalInjects = 5,
      events = [\<lparr>id_ev = ''uuid-iiiiii'', name = Some ''Phase 1'', injectCount = 5\<rparr>]\<rparr>"


definition demoChanged :: Inject where
  "demoChanged = demoInject 3 ''Phase 1'' ''changed''"

definition demoEmptyDoc :: MelData where
  "demoEmptyDoc =
     \<lparr>melId = ''uuid-'', version = 1, timestamp = ''tick-'', injects = [],
      totalInjects = 0, events = []\<rparr>"

text \<open>
  A session of the chat route that holds the built document, an edit request for another
  document, a chat request for a session that does not exist yet, and a server with no
  session in either map.
\<close>

definition demoSession :: Session where
  "demoSession =
     \<lparr>messages = [\<lparr>role = ''user'', content = ''Write a flood exercise'', id_msg = Some ''1''\<rparr>],
      lastActivity = ''tick-'', createdAt = ''tick-'', currentMel = Some demoDoc,
      melHistory = Some [historyEntry demoDoc ''tick-i'' ''full_creation_responses'']\<rparr>"

definition demoPut :: PutRequest where
  "demoPut =
     \<lparr>sessionId_put = Some ''session_1'', melId_put = Some ''another-mel'',
      injects_put = Some [demoChanged], action_put = Some ''updateInjects''\<rparr>"

definition demoChatRequest :: ChatRequest where
  "demoChatRequest =
     \<lparr>messages_req = [\<lparr>role = ''user'', content = ''Write a flood exercise'', id_msg = Some ''1''\<rparr>],
      apiKey = Some ''sk-test'', systemPrompt = Some ''You are Lisa'',
      sessionId_req = Some ''session_1'', currentMelData = None\<rparr>"

definition demoServer :: server where
  "demoServer = \<lparr>chatSessions = [], apiSessions = [], runtime = demoWorldAt 0 0\<rparr>"

section \<open>Properties\<close>

subsection \<open>The event aggregator\<close>

lemma firstSeen_snoc:
  "firstSeen (xs @ [x]) = (if x \<in> set xs then firstSeen xs else firstSeen xs @ [x])"
  by (simp add: firstSeen_def)

lemma set_firstSeen: "set (firstSeen xs) = set xs"
  by (simp add: firstSeen_def)

lemma distinct_firstSeen: "distinct (firstSeen xs)"
  by (simp add: firstSeen_def)

lemma update_absent: "k \<notin> fst ` set m \<Longrightarrow> AList.update k v m = m @ [(k, v)]"
  by (induction m) auto

lemma map_entry_absent_snoc:
  "k \<notin> fst ` set m \<Longrightarrow> AList.map_entry k f (m @ [(k, v)]) = m @ [(k, f v)]"
  by (induction m) auto

lemma map_entry_distinct:
  "distinct (map fst m) \<Longrightarrow>
   AList.map_entry k f m = map (\<lambda>p. (fst p, if fst p = k then f (snd p) else snd p)) m"
proof (induction m)
  case Nil
  show ?case by simp
next
  case (Cons p m)
  show ?case
  proof (cases "fst p = k")
    case True
    then have "k \<notin> fst ` set m" using Cons.prems by auto
    then have "map (\<lambda>p. (fst p, if fst p = k then f (snd p) else snd p)) m = m"
      by (induction m) auto
    with True show ?thesis by (cases p) simp
  next
    case False
    with Cons show ?thesis by (cases p) simp
  qed
qed

lemma eventStep_has:
  "map_of m (Serial inject) = Some e \<Longrightarrow>
   eventStep (m, w) inject =
     (AList.map_entry (Serial inject) (\<lambda>e. e\<lparr>injectCount := injectCount e + 1\<rparr>) m, w)"
  by (simp add: eventStep_def)

lemma eventStep_new:
  "map_of m (Serial inject) = None \<Longrightarrow>
   eventStep (m, w) inject =
     (AList.map_entry (Serial inject) (\<lambda>e. e\<lparr>injectCount := injectCount e + 1\<rparr>)
        (AList.update (Serial inject)
           \<lparr>id_ev = uuidSeq w (uuidPos w), name = Serial inject, injectCount = 0\<rparr> m),
      w\<lparr>uuidPos := Suc (uuidPos w)\<rparr>)"
  by (simp add: eventStep_def randomUUID_def Let_def)

lemma eventView_keys: "map fst (eventView m) = map fst m"
  by (simp add: eventView_def)

lemma keyCounts_keys: "map fst (keyCounts ks) = firstSeen ks"
  by (simp add: keyCounts_def comp_def)

lemma eventStep_view:
  assumes "eventView m = keyCounts ks"
  shows "eventView (fst (eventStep (m, w) inject)) = keyCounts (ks @ [Serial inject])"
proof -
  let ?k = "Serial inject"
  have keys: "map fst m = firstSeen ks"
    using assms eventView_keys keyCounts_keys by metis
  show ?thesis
  proof (cases "?k \<in> set ks")
    case True
    then have "?k \<in> fst ` set m" using keys set_firstSeen
      by (metis list.set_map)
    then obtain e where has: "map_of m ?k = Some e"
      by (meson map_of_eq_None_iff not_None_eq)
    have d: "distinct (map fst m)" using keys distinct_firstSeen by metis
    have "eventView (fst (eventStep (m, w) inject)) =
          map (\<lambda>p. (fst p, if fst p = ?k then (fst (snd p), Suc (snd (snd p))) else snd p)) (eventView m)"
      by (simp add: eventStep_has [OF has] map_entry_distinct [OF d] eventView_def)
    also have "\<dots> = keyCounts (ks @ [?k])"
      using True by (simp add: assms keyCounts_def firstSeen_snoc)
    finally show ?thesis .
  next
    case False
    then have nk: "?k \<notin> fst ` set m" using keys set_firstSeen
      by (metis list.set_map)
    then have has: "map_of m ?k = None" by (simp add: map_of_eq_None_iff)
    have "eventView (fst (eventStep (m, w) inject)) = eventView m @ [(?k, ?k, 1)]"
      by (simp add: eventStep_new [OF has] update_absent [OF nk]
          map_entry_absent_snoc [OF nk] eventView_def)
    also have "\<dots> = keyCounts (ks @ [?k])"
      using False by (auto simp add: assms keyCounts_def firstSeen_snoc set_firstSeen)
    finally show ?thesis .
  qed
qed

lemma foldl_eventStep_view:
  "eventView (fst (foldl eventStep ([], w) injs)) = keyCounts (map Serial injs)"
proof (induction injs rule: rev_induct)
  case Nil
  show ?case by (simp add: eventView_def keyCounts_def firstSeen_def)
next
  case (snoc x xs)
  obtain m w' where mw: "foldl eventStep ([], w) xs = (m, w')" by (cases "foldl eventStep ([], w) xs")
  with snoc have "eventView m = keyCounts (map Serial xs)" by simp
  from eventStep_view [OF this, of w' x] show ?case by (simp add: mw)
qed


lemma extractEvents_fold:
  "fst (extractEventsFromInjects injs w) = map snd (fst (foldl eventStep ([], w) injs))"
  by (simp add: extractEventsFromInjects_def case_prod_beta)

lemma extractEvents_view:
  "map (\<lambda>e. (name e, injectCount e)) (fst (extractEventsFromInjects injs w)) =
   map (\<lambda>k. (k, count_list (map Serial injs) k)) (firstSeen (map Serial injs))"
proof -
  let ?m = "fst (foldl eventStep ([], w) injs)"
  have "map (\<lambda>e. (name e, injectCount e)) (map snd ?m) = map snd (eventView ?m)"
    by (simp add: eventView_def)
  also have "\<dots> = map snd (keyCounts (map Serial injs))"
    by (simp only: foldl_eventStep_view)
  also have "\<dots> = map (\<lambda>k. (k, count_list (map Serial injs) k)) (firstSeen (map Serial injs))"
    by (simp add: keyCounts_def)
  finally show ?thesis by (simp only: extractEvents_fold)
qed

lemma length_firstSeen: "length (firstSeen ks) = card (set ks)"
  by (simp add: firstSeen_def length_remdups_card_conv)

lemma length_extractEvents:
  "length (fst (extractEventsFromInjects injs w)) = card (set (map Serial injs))"
proof -
  have "length (map (\<lambda>e. (name e, injectCount e)) (fst (extractEventsFromInjects injs w))) =
        length (firstSeen (map Serial injs))"
    by (simp only: extractEvents_view length_map)
  then show ?thesis by (simp only: length_map length_firstSeen)
qed

lemma length_assignIds: "length (fst (assignIds m ts i L w)) = length L"
  by (induction L arbitrary: i w) (simp_all add: case_prod_beta Let_def)

lemma Serial_assignIds: "map Serial (fst (assignIds m ts i L w)) = map Serial L"
  by (induction L arbitrary: i w) (simp_all add: case_prod_beta Let_def)

lemma melId_assignIds: "map melId_inj (fst (assignIds m ts i L w)) = replicate (length L) (Some m)"
  by (induction L arbitrary: i w) (simp_all add: case_prod_beta Let_def)


text \<open>
  Claim C7. For every ordered sequence of injects, \<^verbatim>\<open>extractEventsFromInjects\<close> returns
  one event per distinct value of \<open>Serial\<close>, in the order in which the values are first
  seen, and the count of each event is the number of injects with that value (a missing
  \<open>Serial\<close> is the value \<open>None\<close>). On the empty sequence it returns the empty sequence.
\<close>

theorem extractEvents_first_seen_counts:
  "map (\<lambda>e. (name e, injectCount e)) (fst (extractEventsFromInjects injs w)) =
     map (\<lambda>k. (k, count_list (map Serial injs) k)) (firstSeen (map Serial injs)) \<and>
   fst (extractEventsFromInjects [] w) = []"
proof
  show "map (\<lambda>e. (name e, injectCount e)) (fst (extractEventsFromInjects injs w)) =
     map (\<lambda>k. (k, count_list (map Serial injs) k)) (firstSeen (map Serial injs))"
    by (rule extractEvents_view)
  show "fst (extractEventsFromInjects [] w) = []"
    by (simp add: extractEventsFromInjects_def)
qed

subsection \<open>The document builder\<close>

text \<open>
  Claim C5. For any inject list \<open>L\<close>, \<^verbatim>\<open>createMelVersion\<close> returns a document of
  version 1, whose inject list has the length of \<open>L\<close>, and whose list of events has as
  many entries as there are distinct values of \<open>Serial\<close> in \<open>L\<close>.
\<close>

theorem createMelVersion_version_lengths:
  "version (fst (createMelVersion L melIdOpt w)) = 1 \<and>
   length (injects (fst (createMelVersion L melIdOpt w))) = length L \<and>
   length (events (fst (createMelVersion L melIdOpt w))) = card (set (map Serial L))"
  by (simp add: createMelVersion_def case_prod_beta Let_def length_assignIds
      length_extractEvents Serial_assignIds)


subsection \<open>Evaluation of the concrete inputs\<close>

lemmas demo_defs = demoUuid_def demoClock_def demoWorldAt_def demoInject_def demoFive_def
  demoStored_def demoDoc_def demoChanged_def demoEmptyDoc_def eval_nat_numeral

lemmas run_defs = createMelVersion_def updateMelVersion_def mergeMelUpdates_def mergeStep_def
  extractEventsFromInjects_def eventStep_def orRandomUUID_def randomUUID_def nowISO_def

lemma demoDoc_built: "createMelVersion demoFive None (demoWorldAt 0 0) = (demoDoc, demoWorldAt 7 1)"
  by (simp add: demo_defs run_defs Let_def)

lemma demoEmptyDoc_built: "createMelVersion [] None (demoWorldAt 0 0) = (demoEmptyDoc, demoWorldAt 1 1)"
  by (simp add: demo_defs run_defs Let_def)

subsection \<open>The merge engine\<close>

lemma findIndex_SomeD:
  "findIndex P xs = Some i \<Longrightarrow> i < length xs \<and> P (xs ! i)"
proof (induction xs arbitrary: i)
  case Nil
  then show ?case by simp
next
  case (Cons x xs)
  then show ?case by (auto split: if_splits)
qed

lemma nowISO_fst: "fst (nowISO w) = clockSeq w (clockPos w)"
  by (simp add: nowISO_def)

lemma updateMelVersion_injects:
  "injects (fst (updateMelVersion cm L w)) =
     map (\<lambda>inject. inject\<lparr>lastModified := Some (clockSeq w (clockPos w))\<rparr>) L"
  by (simp add: updateMelVersion_def case_prod_beta nowISO_def)

lemma updateMelVersion_fields:
  "melId (fst (updateMelVersion cm L w)) = melId cm"
  "version (fst (updateMelVersion cm L w)) = numberPlusOne (version cm)"
  "totalInjects (fst (updateMelVersion cm L w)) = length L"
  "timestamp (fst (updateMelVersion cm L w)) = clockSeq w (clockPos w)"
  by (simp_all add: updateMelVersion_def case_prod_beta nowISO_def)

lemma numberPlusOne_safe: "\<bar>v\<bar> < 2 ^ 53 \<Longrightarrow> numberPlusOne v = v + 1"
proof -
  assume "\<bar>v\<bar> < 2 ^ 53"
  then have "- (2 ^ 53) \<le> v \<and> v < 2 ^ 53" by arith
  then show ?thesis unfolding numberPlusOne_def by (rule if_P)
qed

lemma numberPlusOne_at_limit: "numberPlusOne (2 ^ 53) = 2 ^ 53"
  by (simp add: numberPlusOne_def)

lemma map_update_same: "i < length ms \<Longrightarrow> (map f ms)[i := f (ms ! i)] = map f ms"
  by (simp add: list_update_same_conv)


lemma mergeStep_ids:
  "take (length ms) (map id_inj (fst (mergeStep cm (ms, w) u))) = map id_inj ms"
proof (cases "findIndex (\<lambda>existing. id_inj existing = id_inj u \<or> Number existing = Number u) ms")
  case None
  then show ?thesis by (simp add: mergeStep_def case_prod_beta)
next
  case (Some i)
  then have "i < length ms" by (simp add: findIndex_SomeD)
  with Some show ?thesis
    by (simp add: mergeStep_def case_prod_beta map_update map_update_same)
qed

lemma mergeStep_length: "length ms \<le> length (fst (mergeStep cm (ms, w) u))"
  by (simp add: mergeStep_def case_prod_beta split: option.splits)


lemma foldl_mergeStep_ids:
  "take (length ms) (map id_inj (fst (foldl (mergeStep cm) (ms, w) us))) = map id_inj ms"
proof (induction us arbitrary: ms w)
  case Nil
  show ?case by simp
next
  case (Cons u us)
  obtain ms1 w1 where s: "mergeStep cm (ms, w) u = (ms1, w1)"
    by (cases "mergeStep cm (ms, w) u")
  have le: "length ms \<le> length ms1" using mergeStep_length [of ms cm w u] by (simp add: s)
  have "take (length ms) (map id_inj (fst (foldl (mergeStep cm) (ms1, w1) us))) =
        take (length ms) (take (length ms1) (map id_inj (fst (foldl (mergeStep cm) (ms1, w1) us))))"
    using le by (simp add: min_def)
  also have "\<dots> = take (length ms) (map id_inj ms1)"
    by (simp only: Cons.IH)
  also have "\<dots> = take (length ms) (take (length ms) (map id_inj ms1))"
    by simp
  also have "\<dots> = map id_inj ms"
    using mergeStep_ids [of ms cm w u] by (simp add: s)
  finally show ?case by (simp add: s)
qed

lemma foldl_mergeStep_length:
  "length ms \<le> length (fst (foldl (mergeStep cm) (ms, w) us))"
proof (induction us arbitrary: ms w)
  case Nil
  show ?case by simp
next
  case (Cons u us)
  obtain ms1 w1 where s: "mergeStep cm (ms, w) u = (ms1, w1)"
    by (cases "mergeStep cm (ms, w) u")
  have "length ms \<le> length ms1" using mergeStep_length [of ms cm w u] by (simp add: s)
  also have "\<dots> \<le> length (fst (foldl (mergeStep cm) (ms1, w1) us))" by (rule Cons.IH)
  finally show ?case by (simp add: s)
qed


lemma mergeMelUpdates_partial:
  "length L < length (injects cm) \<Longrightarrow>
   mergeMelUpdates (Some cm) L w =
     updateMelVersion cm (fst (foldl (mergeStep cm) (injects cm, w) L))
       (snd (foldl (mergeStep cm) (injects cm, w) L))"
  by (simp add: mergeMelUpdates_def case_prod_beta)

lemma mergeMelUpdates_full:
  "length (injects cm) \<le> length L \<Longrightarrow>
   mergeMelUpdates (Some cm) L w = updateMelVersion cm L w"
  by (simp add: mergeMelUpdates_def)

lemma map_restamp_ids: "map id_inj (map (\<lambda>inject. inject\<lparr>lastModified := t\<rparr>) L) = map id_inj L"
  by simp



text \<open>
  Claim C3. Under the action \<^verbatim>\<open>'merge'\<close> a chat turn on a document with injects
  calls \<^verbatim>\<open>mergeMelUpdates\<close>, where the reconciliation by fields happens only when the
  incoming batch is strictly shorter than the inject list of the document. A batch of
  equal or greater length is a full replacement: the result is that of
  \<^verbatim>\<open>updateMelVersion\<close>, and its inject list is the incoming batch with a new
  last-modified time, so an inject of the document that the batch does not hold is gone.
  When the batch is shorter, every inject of the document keeps its place and its
  identifier.
\<close>

theorem merge_reconciles_only_when_shorter:
  "(injects cm \<noteq> [] \<longrightarrow>
      POST_melData (Some cm) L ''merge'' w = mergeMelUpdates (Some cm) L w) \<and>
   (length (injects cm) \<le> length L \<longrightarrow>
      mergeMelUpdates (Some cm) L w = updateMelVersion cm L w \<and>
      injects (fst (mergeMelUpdates (Some cm) L w)) =
        map (\<lambda>inject. inject\<lparr>lastModified := Some (clockSeq w (clockPos w))\<rparr>) L) \<and>
   (length L < length (injects cm) \<longrightarrow>
      length (injects cm) \<le> length (injects (fst (mergeMelUpdates (Some cm) L w))) \<and>
      take (length (injects cm)) (map id_inj (injects (fst (mergeMelUpdates (Some cm) L w)))) =
        map id_inj (injects cm))"
proof (intro conjI impI)
  assume "injects cm \<noteq> []"
  then show "POST_melData (Some cm) L ''merge'' w = mergeMelUpdates (Some cm) L w"
    by (simp add: POST_melData_def)
next
  assume "length (injects cm) \<le> length L"
  then show "mergeMelUpdates (Some cm) L w = updateMelVersion cm L w"
    by (rule mergeMelUpdates_full)
  then show "injects (fst (mergeMelUpdates (Some cm) L w)) =
        map (\<lambda>inject. inject\<lparr>lastModified := Some (clockSeq w (clockPos w))\<rparr>) L"
    by (simp only: updateMelVersion_injects)
next
  assume a: "length L < length (injects cm)"
  let ?f = "foldl (mergeStep cm) (injects cm, w) L"
  have inj: "injects (fst (mergeMelUpdates (Some cm) L w)) =
      map (\<lambda>inject. inject\<lparr>lastModified := Some (clockSeq (snd ?f) (clockPos (snd ?f)))\<rparr>) (fst ?f)"
    by (simp only: mergeMelUpdates_partial [OF a] updateMelVersion_injects)
  show "length (injects cm) \<le> length (injects (fst (mergeMelUpdates (Some cm) L w)))"
    by (simp only: inj length_map foldl_mergeStep_length)
  show "take (length (injects cm)) (map id_inj (injects (fst (mergeMelUpdates (Some cm) L w)))) =
        map id_inj (injects cm)"
    by (simp only: inj map_restamp_ids foldl_mergeStep_ids)
qed


text \<open>
  At the document built from five injects: a batch of five injects that leaves number 3
  out loses it (the replacement), and a batch of one inject keeps all five (the merge).
\<close>

theorem merge_reconciles_only_when_shorter_witness:
  "length (injects demoDoc) \<le> length (map (\<lambda>n. demoInject n ''Phase 2'' ''new'') [1, 2, 4, 5, 6]) \<and>
   map Number (injects (fst (mergeMelUpdates (Some demoDoc)
       (map (\<lambda>n. demoInject n ''Phase 2'' ''new'') [1, 2, 4, 5, 6]) (demoWorldAt 7 1)))) =
     map (\<lambda>n. Some (NumNumber n)) [1, 2, 4, 5, 6] \<and>
   length [demoChanged] < length (injects demoDoc) \<and>
   take (length (injects demoDoc))
     (map id_inj (injects (fst (mergeMelUpdates (Some demoDoc) [demoChanged] (demoWorldAt 7 1))))) =
     map id_inj (injects demoDoc) \<and>
   injects demoDoc \<noteq> [] \<and>
   POST_melData (Some demoDoc) [demoChanged] ''merge'' (demoWorldAt 7 1) =
     mergeMelUpdates (Some demoDoc) [demoChanged] (demoWorldAt 7 1)"
proof -
  let ?batch = "map (\<lambda>n. demoInject n ''Phase 2'' ''new'') [1, 2, 4, 5, 6]"
  have h1: "length (injects demoDoc) \<le> length ?batch"
    by (simp add: demoDoc_def)
  have h2: "length [demoChanged] < length (injects demoDoc)"
    by (simp add: demoDoc_def)
  have h3: "injects demoDoc \<noteq> []"
    by (simp add: demoDoc_def)
  from merge_reconciles_only_when_shorter [of demoDoc ?batch "demoWorldAt 7 1"] h1
  have "injects (fst (mergeMelUpdates (Some demoDoc) ?batch (demoWorldAt 7 1))) =
      map (\<lambda>inject. inject\<lparr>lastModified :=
             Some (clockSeq (demoWorldAt 7 1) (clockPos (demoWorldAt 7 1)))\<rparr>) ?batch"
    by blast
  then have r: "map Number (injects (fst (mergeMelUpdates (Some demoDoc) ?batch (demoWorldAt 7 1)))) =
      map (\<lambda>n. Some (NumNumber n)) [1, 2, 4, 5, 6]"
    by (simp add: demoInject_def)
  from merge_reconciles_only_when_shorter [of demoDoc "[demoChanged]" "demoWorldAt 7 1"] h2 h3
  have m: "take (length (injects demoDoc))
      (map id_inj (injects (fst (mergeMelUpdates (Some demoDoc) [demoChanged] (demoWorldAt 7 1))))) =
      map id_inj (injects demoDoc)"
    and p: "POST_melData (Some demoDoc) [demoChanged] ''merge'' (demoWorldAt 7 1) =
      mergeMelUpdates (Some demoDoc) [demoChanged] (demoWorldAt 7 1)"
    by blast+
  from h1 r h2 m h3 p show ?thesis by blast
qed

text \<open>
  Claim C1, as the code has it. A document has five injects numbered 1 to 5, and one
  incoming inject has number 3 and an identifier that no inject of the document has
  (it is addressed by its number). After \<^verbatim>\<open>mergeMelUpdates\<close> the injects 1, 2, 4 and 5
  are as before but for their last-modified time, which \<^verbatim>\<open>updateMelVersion\<close> stamps
  on every inject; inject 3 has the fields of the incoming inject, the identifier of the
  old inject 3 and the identifier of the document as its owner.
\<close>

theorem merge_single_inject_by_number:
  assumes "injects cm = [e1, e2, e3, e4, e5]"
    and "map Number [e1, e2, e3, e4, e5] = map (\<lambda>n. Some (NumNumber n)) [1, 2, 3, 4, 5]"
    and "Number u = Some (NumNumber 3)"
    and "id_inj u \<notin> set (map id_inj [e1, e2, e3, e4, e5])"
  shows "injects (fst (mergeMelUpdates (Some cm) [u] w)) =
           map (\<lambda>inject. inject\<lparr>lastModified := Some (clockSeq w (Suc (clockPos w)))\<rparr>)
             [e1, e2, u\<lparr>id_inj := id_inj e3, melId_inj := Some (melId cm)\<rparr>, e4, e5]"
proof -
  have n: "Number e1 \<noteq> Number u" "Number e2 \<noteq> Number u" "Number e3 = Number u"
    using assms(2,3) by simp_all
  have i: "id_inj e1 \<noteq> id_inj u" "id_inj e2 \<noteq> id_inj u" "id_inj e3 \<noteq> id_inj u"
    using assms(4) by auto
  have "foldl (mergeStep cm) (injects cm, w) [u] =
          ([e1, e2, u\<lparr>id_inj := id_inj e3, melId_inj := Some (melId cm),
                       lastModified := Some (clockSeq w (clockPos w))\<rparr>, e4, e5],
           w\<lparr>clockPos := Suc (clockPos w)\<rparr>)"
    using n i by (simp add: assms(1) mergeStep_def nowISO_def)
  then show ?thesis
    by (simp add: mergeMelUpdates_def assms(1) updateMelVersion_injects)
qed


theorem merge_single_inject_by_number_witness:
  "map Number (injects demoDoc) = map (\<lambda>n. Some (NumNumber n)) [1, 2, 3, 4, 5] \<and>
   Number demoChanged = Some (NumNumber 3) \<and>
   id_inj demoChanged \<notin> set (map id_inj (injects demoDoc)) \<and>
   map Message (injects (fst (mergeMelUpdates (Some demoDoc) [demoChanged] (demoWorldAt 7 1)))) =
     [Some ''original'', Some ''original'', Some ''changed'', Some ''original'', Some ''original''] \<and>
   map id_inj (injects (fst (mergeMelUpdates (Some demoDoc) [demoChanged] (demoWorldAt 7 1)))) =
     map id_inj (injects demoDoc)"
  using merge_single_inject_by_number [of demoDoc
      "injects demoDoc ! 0" "injects demoDoc ! 1" "injects demoDoc ! 2"
      "injects demoDoc ! 3" "injects demoDoc ! 4" demoChanged "demoWorldAt 7 1"]
  by (simp add: demo_defs run_defs Let_def)

text \<open>
  The claim as the specification words it fails: inject 1, which the merge does not
  address, is not what it was, since its last-modified time is stamped again.
\<close>

theorem merge_untouched_inject_counterexample:
  "injects (fst (mergeMelUpdates (Some demoDoc) [demoChanged] (demoWorldAt 7 1))) ! 0
   \<noteq> injects demoDoc ! 0"
  by (simp add: demo_defs run_defs Let_def)


subsection \<open>Identifiers and owning documents\<close>











subsection \<open>Delegation to the document builder\<close>

text \<open>
  \<^verbatim>\<open>mergeMelUpdates\<close> is not exported, and its one call, in the chat turn, stands
  under the test that the document has injects. On a document whose inject list is
  empty, which it is never given, its own test \<^verbatim>\<open>!currentMel.injects\<close> would fail
  (an empty array is truthy) and it would replace.
\<close>

lemma mergeMelUpdates_empty_list:
  "injects cm = [] \<Longrightarrow> mergeMelUpdates (Some cm) L w = updateMelVersion cm L w"
  by (simp add: mergeMelUpdates_full)

text \<open>
  Claim C2. The merge with a mode is the choice that the chat turn makes between the
  three functions, by the document it has and by the action. When there is no document
  or the inject list of the document is empty, the new document is that of
  \<^verbatim>\<open>createMelVersion\<close> on the incoming injects alone, a new creation of version 1,
  whatever the action; and \<^verbatim>\<open>mergeMelUpdates\<close> on \<^verbatim>\<open>null\<close> is
  \<^verbatim>\<open>createMelVersion\<close> too.
\<close>

theorem delegation_to_builder:
  "((\<forall>em. existingMel = Some em \<longrightarrow> injects em = []) \<longrightarrow>
      POST_melData existingMel L action w = createMelVersion L None w \<and>
      version (fst (POST_melData existingMel L action w)) = 1) \<and>
   mergeMelUpdates None L w = createMelVersion L None w \<and>
   version (fst (mergeMelUpdates None L w)) = 1"
proof (intro conjI impI)
  have v: "version (fst (createMelVersion L None w)) = 1"
    by (simp add: createMelVersion_def case_prod_beta Let_def)
  show m: "mergeMelUpdates None L w = createMelVersion L None w"
    by (simp add: mergeMelUpdates_def)
  show "version (fst (mergeMelUpdates None L w)) = 1"
    by (simp only: m v)
  assume e: "\<forall>em. existingMel = Some em \<longrightarrow> injects em = []"
  then show p: "POST_melData existingMel L action w = createMelVersion L None w"
    by (cases existingMel) (simp_all add: POST_melData_def)
  show "version (fst (POST_melData existingMel L action w)) = 1"
    by (simp only: p v)
qed

text \<open>
  At the document built from no injects, under both actions, and with no document.
\<close>

theorem delegation_to_builder_witness:
  "injects demoEmptyDoc = [] \<and>
   POST_melData (Some demoEmptyDoc) demoFive ''merge'' (demoWorldAt 1 1) =
     createMelVersion demoFive None (demoWorldAt 1 1) \<and>
   POST_melData (Some demoEmptyDoc) demoFive ''replace'' (demoWorldAt 1 1) =
     createMelVersion demoFive None (demoWorldAt 1 1) \<and>
   POST_melData None demoFive ''merge'' (demoWorldAt 0 0) = (demoDoc, demoWorldAt 7 1) \<and>
   version (fst (POST_melData (Some demoEmptyDoc) demoFive ''merge'' (demoWorldAt 1 1))) = 1 \<and>
   version (fst (POST_melData (Some demoEmptyDoc) demoFive ''replace'' (demoWorldAt 1 1))) = 1"
proof -
  have h: "\<forall>em. Some demoEmptyDoc = Some em \<longrightarrow> injects em = []"
    by (simp add: demoEmptyDoc_def)
  have n: "\<forall>em. (None :: MelData option) = Some em \<longrightarrow> injects em = []"
    by simp
  have e: "injects demoEmptyDoc = []"
    by (simp add: demoEmptyDoc_def)
  from delegation_to_builder [where existingMel = "Some demoEmptyDoc" and L = demoFive
      and action = "''merge''" and w = "demoWorldAt 1 1"] h
  have m: "POST_melData (Some demoEmptyDoc) demoFive ''merge'' (demoWorldAt 1 1) =
      createMelVersion demoFive None (demoWorldAt 1 1)"
    and mv: "version (fst (POST_melData (Some demoEmptyDoc) demoFive ''merge'' (demoWorldAt 1 1))) = 1"
    by blast+
  from delegation_to_builder [where existingMel = "Some demoEmptyDoc" and L = demoFive
      and action = "''replace''" and w = "demoWorldAt 1 1"] h
  have r: "POST_melData (Some demoEmptyDoc) demoFive ''replace'' (demoWorldAt 1 1) =
      createMelVersion demoFive None (demoWorldAt 1 1)"
    and rv: "version (fst (POST_melData (Some demoEmptyDoc) demoFive ''replace'' (demoWorldAt 1 1))) = 1"
    by blast+
  from delegation_to_builder [where existingMel = None and L = demoFive
      and action = "''merge''" and w = "demoWorldAt 0 0"] n
  have "POST_melData None demoFive ''merge'' (demoWorldAt 0 0) =
      createMelVersion demoFive None (demoWorldAt 0 0)"
    by blast
  then have b: "POST_melData None demoFive ''merge'' (demoWorldAt 0 0) = (demoDoc, demoWorldAt 7 1)"
    by (simp only: demoDoc_built)
  from e m r b mv rv show ?thesis by blast
qed

subsection \<open>Replacement\<close>

lemma updateMelVersion_events:
  "events (fst (updateMelVersion cm L w)) =
     fst (extractEventsFromInjects L (snd (nowISO w)))"
  by (simp add: updateMelVersion_def case_prod_beta)


text \<open>
  Claim C6. In the chat turn, on a document with injects and an action other than
  \<^verbatim>\<open>'merge'\<close> (the mode \<open>replace\<close>), the new document is that of
  \<^verbatim>\<open>updateMelVersion\<close>: its inject list is the incoming list with a new last-modified
  time on every inject and nothing else changed, its count is the length of the incoming
  list, its version is the old version plus 1 (the old version being a safe integer,
  below \<open>2 ^ 53\<close> in magnitude, where the sum of doubles is exact), and its identifier
  is that of the old document. It is the old document with the fields \<open>version\<close>, \<open>timestamp\<close>,
  \<open>injects\<close>, \<open>totalInjects\<close> and \<open>events\<close> set anew, so no inject of the old list
  stays unless the incoming list holds it.
\<close>

theorem replace_mode_result:
  assumes "injects em \<noteq> []" and "action \<noteq> ''merge''" and "\<bar>version em\<bar> < 2 ^ 53"
  shows "POST_melData (Some em) L action w = updateMelVersion em L w \<and>
     injects (fst (POST_melData (Some em) L action w)) =
       map (\<lambda>inject. inject\<lparr>lastModified := Some (clockSeq w (clockPos w))\<rparr>) L \<and>
     length (injects (fst (POST_melData (Some em) L action w))) = length L \<and>
     totalInjects (fst (POST_melData (Some em) L action w)) = length L \<and>
     version (fst (POST_melData (Some em) L action w)) = version em + 1 \<and>
     melId (fst (POST_melData (Some em) L action w)) = melId em \<and>
     fst (POST_melData (Some em) L action w) =
       em\<lparr>version := version em + 1,
          timestamp := clockSeq w (clockPos w),
          injects := map (\<lambda>inject. inject\<lparr>lastModified := Some (clockSeq w (clockPos w))\<rparr>) L,
          totalInjects := length L,
          events := fst (extractEventsFromInjects L (snd (nowISO w)))\<rparr>"
proof -
  have p: "POST_melData (Some em) L action w = updateMelVersion em L w"
    using assms by (simp add: POST_melData_def)
  have r: "fst (updateMelVersion em L w) =
       em\<lparr>version := version em + 1,
          timestamp := clockSeq w (clockPos w),
          injects := map (\<lambda>inject. inject\<lparr>lastModified := Some (clockSeq w (clockPos w))\<rparr>) L,
          totalInjects := length L,
          events := fst (extractEventsFromInjects L (snd (nowISO w)))\<rparr>"
    by (simp add: updateMelVersion_def case_prod_beta nowISO_def numberPlusOne_safe [OF assms(3)])
  show ?thesis
    by (simp only: p updateMelVersion_injects updateMelVersion_fields length_map r [symmetric]
        numberPlusOne_safe [OF assms(3)])
qed


theorem replace_mode_result_witness:
  "injects demoDoc \<noteq> [] \<and> ''replace'' \<noteq> ''merge'' \<and> \<bar>version demoDoc\<bar> < 2 ^ 53 \<and>
   map Message (injects (fst (POST_melData (Some demoDoc) [demoChanged] ''replace'' (demoWorldAt 7 1)))) =
     [Some ''changed''] \<and>
   totalInjects (fst (POST_melData (Some demoDoc) [demoChanged] ''replace'' (demoWorldAt 7 1))) = 1 \<and>
   version (fst (POST_melData (Some demoDoc) [demoChanged] ''replace'' (demoWorldAt 7 1))) = 2 \<and>
   melId (fst (POST_melData (Some demoDoc) [demoChanged] ''replace'' (demoWorldAt 7 1))) = ''uuid-''"
proof -
  have h1: "injects demoDoc \<noteq> []" by (simp add: demoDoc_def)
  have h2: "''replace'' \<noteq> ''merge''" by simp
  have h3: "\<bar>version demoDoc\<bar> < 2 ^ 53" by (simp add: demoDoc_def)
  from replace_mode_result [OF h1 h2 h3, of "[demoChanged]" "demoWorldAt 7 1"]
  have "injects (fst (POST_melData (Some demoDoc) [demoChanged] ''replace'' (demoWorldAt 7 1))) =
       map (\<lambda>inject. inject\<lparr>lastModified := Some (clockSeq (demoWorldAt 7 1) (clockPos (demoWorldAt 7 1)))\<rparr>) [demoChanged]"
    and "totalInjects (fst (POST_melData (Some demoDoc) [demoChanged] ''replace'' (demoWorldAt 7 1))) = length [demoChanged]"
    and "version (fst (POST_melData (Some demoDoc) [demoChanged] ''replace'' (demoWorldAt 7 1))) = version demoDoc + 1"
    and "melId (fst (POST_melData (Some demoDoc) [demoChanged] ''replace'' (demoWorldAt 7 1))) = melId demoDoc"
    by blast+
  then show ?thesis using h1 h3
    by (simp add: demoDoc_def demoChanged_def demoInject_def)
qed


subsection \<open>Building, then replacing with the same injects\<close>

lemma createMelVersion_events:
  "events (fst (createMelVersion X m w)) =
     fst (extractEventsFromInjects (injects (fst (createMelVersion X m w)))
            (snd (assignIds (melId (fst (createMelVersion X m w)))
                    (timestamp (fst (createMelVersion X m w))) 0 X
                    (snd (nowISO (snd (orRandomUUID m w)))))))"
  by (simp add: createMelVersion_def case_prod_beta Let_def)

lemma createMelVersion_fields:
  "version (fst (createMelVersion X m w)) = 1"
  "totalInjects (fst (createMelVersion X m w)) = length (injects (fst (createMelVersion X m w)))"
  by (simp_all add: createMelVersion_def case_prod_beta Let_def)


text \<open>
  Claim C8, as the code has it. When the inject list of a document that
  \<^verbatim>\<open>createMelVersion\<close> built is given back to \<^verbatim>\<open>updateMelVersion\<close> on that
  document, the result has the same identifier and the same count, version 2, the
  timestamp of the call, the same injects but for their last-modified time, and events
  with the same names and counts. The identifiers of the events are drawn again, so
  the events themselves are not the same.
\<close>

theorem build_then_replace_roundtrip:
  "melId (fst (updateMelVersion (fst (createMelVersion X m w))
       (injects (fst (createMelVersion X m w))) w')) = melId (fst (createMelVersion X m w)) \<and>
   totalInjects (fst (updateMelVersion (fst (createMelVersion X m w))
       (injects (fst (createMelVersion X m w))) w')) = totalInjects (fst (createMelVersion X m w)) \<and>
   version (fst (updateMelVersion (fst (createMelVersion X m w))
       (injects (fst (createMelVersion X m w))) w')) = 2 \<and>
   timestamp (fst (updateMelVersion (fst (createMelVersion X m w))
       (injects (fst (createMelVersion X m w))) w')) = clockSeq w' (clockPos w') \<and>
   injects (fst (updateMelVersion (fst (createMelVersion X m w))
       (injects (fst (createMelVersion X m w))) w')) =
     map (\<lambda>inject. inject\<lparr>lastModified := Some (clockSeq w' (clockPos w'))\<rparr>)
       (injects (fst (createMelVersion X m w))) \<and>
   map (\<lambda>e. (name e, injectCount e)) (events (fst (updateMelVersion (fst (createMelVersion X m w))
       (injects (fst (createMelVersion X m w))) w'))) =
     map (\<lambda>e. (name e, injectCount e)) (events (fst (createMelVersion X m w)))"
proof -
  let ?d = "fst (createMelVersion X m w)"
  have e: "map (\<lambda>e. (name e, injectCount e)) (events (fst (updateMelVersion ?d (injects ?d) w'))) =
        map (\<lambda>e. (name e, injectCount e)) (events ?d)"
    by (simp only: updateMelVersion_events createMelVersion_events extractEvents_view)
  show ?thesis
    by (simp only: updateMelVersion_fields updateMelVersion_injects createMelVersion_fields e)
      (simp add: numberPlusOne_def)
qed


text \<open>
  The claim as the specification words it fails: the events of the two documents
  differ (in the random identifier of the event), and \<open>events\<close> is neither the version
  nor the timestamp.
\<close>

theorem roundtrip_events_counterexample:
  "events (fst (updateMelVersion (fst (createMelVersion demoFive None (demoWorldAt 0 0)))
       (injects (fst (createMelVersion demoFive None (demoWorldAt 0 0))))
       (snd (createMelVersion demoFive None (demoWorldAt 0 0))))) \<noteq>
   events (fst (createMelVersion demoFive None (demoWorldAt 0 0)))"
  by (simp add: demoDoc_built) (simp add: demo_defs run_defs Let_def)



subsection \<open>User edits\<close>

lemma PUT_error_keeps_state:
  assumes "fst (PUT body st) = JsonError status msg"
  shows "snd (PUT body st) = st"
  using assms
  by (auto simp add: PUT_def Let_def case_prod_beta split: option.splits if_splits)


text \<open>
  Claim C9. A user edit (\<^verbatim>\<open>PUT\<close> with the action \<^verbatim>\<open>updateInjects\<close> and a list of
  injects) for a session that exists, whose document identifier is not that of the
  current document of the session (or the session has no document), is answered with
  status 404, which is not the answer 400 to a malformed request, and the map of the
  sessions and the world are left as they were. Whatever the action and the injects of
  the request, such a mismatch leaves the state unchanged.
\<close>

theorem PUT_mismatch_not_found:
  assumes "sid \<noteq> []"
    and "map_of sessions sid = Some session"
    and "\<forall>cm. currentMel session = Some cm \<longrightarrow> mid \<noteq> Some (melId cm)"
  shows "PUT (Some \<lparr>sessionId_put = Some sid, melId_put = mid, injects_put = Some injs,
                    action_put = Some ''updateInjects''\<rparr>) (sessions, w) =
           (JsonError 404 ''MEL not found or ID mismatch'', (sessions, w)) \<and>
         JsonError 404 ''MEL not found or ID mismatch'' \<noteq>
           (JsonError 400 ''Invalid action or missing data'' :: MelData response) \<and>
         snd (PUT (Some \<lparr>sessionId_put = Some sid, melId_put = mid, injects_put = anyInjects,
                         action_put = anyAction\<rparr>) (sessions, w)) = (sessions, w)"
proof (intro conjI)
  show "PUT (Some \<lparr>sessionId_put = Some sid, melId_put = mid, injects_put = Some injs,
                    action_put = Some ''updateInjects''\<rparr>) (sessions, w) =
           (JsonError 404 ''MEL not found or ID mismatch'', (sessions, w))"
    using assms by (cases "currentMel session") (auto simp add: PUT_def truthy_def)
  show "JsonError 404 ''MEL not found or ID mismatch'' \<noteq>
           (JsonError 400 ''Invalid action or missing data'' :: MelData response)"
    by simp
  show "snd (PUT (Some \<lparr>sessionId_put = Some sid, melId_put = mid, injects_put = anyInjects,
                         action_put = anyAction\<rparr>) (sessions, w)) = (sessions, w)"
    using assms by (cases "currentMel session") (auto simp add: PUT_def truthy_def split: option.splits)
qed


theorem PUT_mismatch_not_found_witness:
  "''session_1'' \<noteq> [] \<and>
   map_of [(''session_1'', demoSession)] ''session_1'' = Some demoSession \<and>
   currentMel demoSession = Some demoDoc \<and> Some ''another-mel'' \<noteq> Some (melId demoDoc) \<and>
   PUT (Some demoPut) ([(''session_1'', demoSession)], demoWorldAt 7 2) =
     (JsonError 404 ''MEL not found or ID mismatch'', ([(''session_1'', demoSession)], demoWorldAt 7 2))"
proof -
  have h1: "''session_1'' \<noteq> []" by simp
  have h2: "map_of [(''session_1'', demoSession)] ''session_1'' = Some demoSession" by simp
  have c: "currentMel demoSession = Some demoDoc" by (simp add: demoSession_def)
  have m: "Some ''another-mel'' \<noteq> Some (melId demoDoc)" by (simp add: demoDoc_def)
  have h3: "\<forall>cm. currentMel demoSession = Some cm \<longrightarrow> Some ''another-mel'' \<noteq> Some (melId cm)"
    using c m by simp
  from PUT_mismatch_not_found [OF h1 h2 h3, of "[demoChanged]" "demoWorldAt 7 2"]
  have "PUT (Some demoPut) ([(''session_1'', demoSession)], demoWorldAt 7 2) =
     (JsonError 404 ''MEL not found or ID mismatch'', ([(''session_1'', demoSession)], demoWorldAt 7 2))"
    by (simp add: demoPut_def)
  with h1 h2 c m show ?thesis by blast
qed


subsection \<open>The two session maps\<close>

lemma sessions_GET_truthy:
  "truthy sid \<Longrightarrow> fst (sessions_GET sid (s, w)) = fst (sessions_GET sid (s, w'))"
  by (simp add: sessions_GET_def split: option.splits)

lemma handle_chat_frame:
  "isChatRequest r \<Longrightarrow> apiSessions (snd (handle r srv)) = apiSessions srv"
  by (cases r) (simp_all add: onChat_def case_prod_beta)

lemma handle_sessions_frame:
  "\<not> isChatRequest r \<Longrightarrow> chatSessions (snd (handle r srv)) = chatSessions srv"
  by (cases r) (simp_all add: onSessions_def case_prod_beta)

lemma handle_SessionsGET:
  "fst (handle (SessionsGET sid) srv) =
     SessionsGETReply (fst (sessions_GET sid (apiSessions srv, runtime srv)))"
  by (simp add: onSessions_def case_prod_beta)


text \<open>
  Claim C10. A request to the chat route leaves the map of the sessions route as it
  was, so what the sessions route answers for a session identifier is what it answered
  before: a session that a chat turn created is not found there. A request to the
  sessions route (list, fetch, save, delete) leaves the map of the chat route as it was,
  with its messages, documents and histories, and what the chat route answers on
  \<^verbatim>\<open>GET\<close> is what it answered before.
\<close>

theorem session_maps_independent:
  "(isChatRequest r \<longrightarrow>
      apiSessions (snd (handle r srv)) = apiSessions srv \<and>
      (truthy sid \<longrightarrow>
         fst (handle (SessionsGET sid) (snd (handle r srv))) = fst (handle (SessionsGET sid) srv))) \<and>
   (\<not> isChatRequest r \<longrightarrow>
      chatSessions (snd (handle r srv)) = chatSessions srv \<and>
      fst (handle (ChatGET sid) (snd (handle r srv))) = fst (handle (ChatGET sid) srv))"
proof (intro conjI impI)
  assume c: "isChatRequest r"
  then show a: "apiSessions (snd (handle r srv)) = apiSessions srv"
    by (rule handle_chat_frame)
  assume "truthy sid"
  then show "fst (handle (SessionsGET sid) (snd (handle r srv))) = fst (handle (SessionsGET sid) srv)"
    by (simp only: handle_SessionsGET a sessions_GET_truthy [of sid _ "runtime (snd (handle r srv))" "runtime srv"])
next
  assume c: "\<not> isChatRequest r"
  then show a: "chatSessions (snd (handle r srv)) = chatSessions srv"
    by (rule handle_sessions_frame)
  show "fst (handle (ChatGET sid) (snd (handle r srv))) = fst (handle (ChatGET sid) srv)"
    by (simp add: a)
qed



theorem session_maps_independent_witness:
  "isChatRequest (ChatPOST (Some demoChatRequest) None (UpstreamReply ''Here it is'' (Some demoFive) ''merge'')) \<and>
   truthy (Some ''session_1'') \<and>
   map fst (chatSessions (snd (handle
     (ChatPOST (Some demoChatRequest) None (UpstreamReply ''Here it is'' (Some demoFive) ''merge'')) demoServer))) =
     [''session_1''] \<and>
   fst (handle (SessionsGET (Some ''session_1'')) (snd (handle
     (ChatPOST (Some demoChatRequest) None (UpstreamReply ''Here it is'' (Some demoFive) ''merge'')) demoServer))) =
     SessionsGETReply (JsonError 404 ''Session not found'') \<and>
   \<not> isChatRequest (SessionsDELETE (Some ''session_1'')) \<and>
   chatSessions (snd (handle (SessionsDELETE (Some ''session_1'')) (snd (handle
     (ChatPOST (Some demoChatRequest) None (UpstreamReply ''Here it is'' (Some demoFive) ''merge'')) demoServer)))) =
   chatSessions (snd (handle
     (ChatPOST (Some demoChatRequest) None (UpstreamReply ''Here it is'' (Some demoFive) ''merge'')) demoServer))"
proof -
  let ?r = "ChatPOST (Some demoChatRequest) None (UpstreamReply ''Here it is'' (Some demoFive) ''merge'')"
  have h1: "isChatRequest ?r" by simp
  have h2: "truthy (Some ''session_1'')" by (simp add: truthy_def)
  have h3: "\<not> isChatRequest (SessionsDELETE (Some ''session_1''))" by simp
  have k: "map fst (chatSessions (snd (handle ?r demoServer))) = [''session_1'']"
    by (simp add: POST_def onChat_def demoServer_def demoChatRequest_def truthy_def
        case_prod_beta Let_def)
  have g0: "fst (handle (SessionsGET (Some ''session_1'')) demoServer) =
      SessionsGETReply (JsonError 404 ''Session not found'')"
    by (simp add: onSessions_def sessions_GET_def demoServer_def truthy_def)
  from session_maps_independent [of ?r demoServer "Some ''session_1''"] h1 h2
  have g: "fst (handle (SessionsGET (Some ''session_1'')) (snd (handle ?r demoServer))) =
      fst (handle (SessionsGET (Some ''session_1'')) demoServer)"
    by blast
  from session_maps_independent [of "SessionsDELETE (Some ''session_1'')" "snd (handle ?r demoServer)"] h3
  have d: "chatSessions (snd (handle (SessionsDELETE (Some ''session_1'')) (snd (handle ?r demoServer)))) =
      chatSessions (snd (handle ?r demoServer))"
    by blast
  show ?thesis using h1 h2 h3 k g g0 d by simp
qed

end
